theory Spec2Isabelle
  imports Main
begin

section \<open>Shared vocabulary\<close>

text \<open>
  Identifiers are the strings produced by \<open>uuidv4()\<close>. A \<open>Date\<close> object is modelled by
  its millisecond timestamp. Every \<open>new Date()\<close> of the source reads the clock; the value
  read is passed to the model as an argument, one argument per reading.
\<close>

type_synonym ident = string
type_synonym timestamp = int

text \<open>
  A JavaScript string is modelled by its text as a \<open>string\<close>; the operations compare
  strings for equality only, and the one built-in that looks inside a string,
  \<open>toLowerCase\<close>, is a parameter (section User).
\<close>

text \<open>
  The source throws \<open>Error\<close> objects that differ only in their message. The constructors
  follow the taxonomy of the specification: \<open>'Event not found'\<close>, \<open>'User not found'\<close>,
  \<open>'Unauthorized: Only the event organizer can ...'\<close>, \<open>'Email already exists'\<close>,
  \<open>'Event is full'\<close>, \<open>'User is already registered for this event'\<close> and
  \<open>'User is not registered for this event'\<close>, in this order.
\<close>

datatype error =
    EventNotFound
  | UserNotFound
  | Unauthorized
  | DuplicateKey
  | EventFull
  | AlreadyRegistered
  | NotRegistered

text \<open>Array helpers of JavaScript used by both stores.\<close>

fun findIndex :: "('a \<Rightarrow> bool) \<Rightarrow> 'a list \<Rightarrow> nat option" where
  "findIndex P [] = None"
| "findIndex P (x # xs) =
     (if P x then Some 0 else map_option Suc (findIndex P xs))"

definition indexOf :: "'a list \<Rightarrow> 'a \<Rightarrow> nat option" where
  "indexOf xs v = findIndex (\<lambda>x. x = v) xs"

definition splice1 :: "nat \<Rightarrow> 'a list \<Rightarrow> 'a list" where
  "splice1 i xs = take i xs @ drop (Suc i) xs"

text \<open>
  \<open>Array.prototype.find\<close> returns a reference to the first matching object and the
  callers mutate that object in place. The array then holds the mutated object at the
  position of the first match: \<open>mutate_first\<close> writes it back there.
\<close>

fun mutate_first :: "('a \<Rightarrow> bool) \<Rightarrow> 'a \<Rightarrow> 'a list \<Rightarrow> 'a list" where
  "mutate_first P y [] = []"
| "mutate_first P y (x # xs) = (if P x then y # xs else x # mutate_first P y xs)"

section \<open>Event\<close>

text \<open>
  \<open>maxParticipants\<close> is \<open>null\<close> (\<open>None\<close>) or a number; numbers are integers, as the
  request validation (\<open>Joi.number().integer()\<close>) admits no others. The fields that the source
  initialises with \<open>x || null\<close> are options.
\<close>

record event =
  eid :: ident
  title :: string
  description :: string
  date :: timestamp
  time :: string
  duration :: int
  maxParticipants :: "int option"
  organizerId :: ident
  participants :: "ident list"
  status :: string
  category :: string
  isPublic :: bool
  meetingLink :: "string option"
  createdAt :: timestamp
  updatedAt :: timestamp

text \<open>
  The argument of the constructor; \<open>None\<close> is an absent (\<open>undefined\<close>) property.
  \<open>in_date\<close> is the instant that \<open>new Date(eventData.date)\<close> denotes.
\<close>

record eventData =
  in_title :: string
  in_description :: string
  in_date :: timestamp
  in_time :: string
  in_duration :: "int option"
  in_maxParticipants :: "int option"
  in_status :: "string option"
  in_category :: "string option"
  in_isPublic :: "bool option"
  in_meetingLink :: "string option"

text \<open>JavaScript truthiness of a number-or-null and of a string-or-undefined.\<close>

definition truthy_num :: "int option \<Rightarrow> bool" where
  "truthy_num v = (case v of None \<Rightarrow> False | Some n \<Rightarrow> n \<noteq> 0)"

definition truthy_str :: "string option \<Rightarrow> bool" where
  "truthy_str v = (case v of None \<Rightarrow> False | Some s \<Rightarrow> s \<noteq> [])"

definition new_Event :: "eventData \<Rightarrow> ident \<Rightarrow> ident \<Rightarrow> timestamp \<Rightarrow> timestamp \<Rightarrow> event" where
  "new_Event d organizer uuid t1 t2 =
     \<lparr> eid = uuid,
       title = in_title d,
       description = in_description d,
       date = in_date d,
       time = in_time d,
       duration = (if truthy_num (in_duration d) then the (in_duration d) else 60),
       maxParticipants = (if truthy_num (in_maxParticipants d) then in_maxParticipants d else None),
       organizerId = organizer,
       participants = [],
       status = (if truthy_str (in_status d) then the (in_status d) else ''scheduled''),
       category = (if truthy_str (in_category d) then the (in_category d) else ''general''),
       isPublic = (case in_isPublic d of None \<Rightarrow> True | Some b \<Rightarrow> b),
       meetingLink = (if truthy_str (in_meetingLink d) then in_meetingLink d else None),
       createdAt = t1,
       updatedAt = t2 \<rparr>"

text \<open>
  \<open>addParticipant\<close>: the capacity test comes first, the membership test second; only
  then is the array extended and \<open>updatedAt\<close> refreshed.
\<close>

definition addParticipant :: "event \<Rightarrow> ident \<Rightarrow> timestamp \<Rightarrow> error + event" where
  "addParticipant e userId now =
     (if truthy_num (maxParticipants e) \<and> int (length (participants e)) \<ge> the (maxParticipants e)
      then Inl EventFull
      else if userId \<in> set (participants e)
      then Inl AlreadyRegistered
      else Inr (e\<lparr>participants := participants e @ [userId], updatedAt := now\<rparr>))"

definition removeParticipant :: "event \<Rightarrow> ident \<Rightarrow> timestamp \<Rightarrow> error + event" where
  "removeParticipant e userId now =
     (case indexOf (participants e) userId of
        None \<Rightarrow> Inl NotRegistered
      | Some i \<Rightarrow> Inr (e\<lparr>participants := splice1 i (participants e), updatedAt := now\<rparr>))"

definition isUserRegistered :: "event \<Rightarrow> ident \<Rightarrow> bool" where
  "isUserRegistered e userId = (userId \<in> set (participants e))"

definition getParticipantCount :: "event \<Rightarrow> int" where
  "getParticipantCount e = int (length (participants e))"

text \<open>\<open>None\<close> is the \<open>null\<close> that the source returns for an unlimited event.\<close>

definition getAvailableSpots :: "event \<Rightarrow> int option" where
  "getAvailableSpots e =
     (if \<not> truthy_num (maxParticipants e) then None
      else Some (the (maxParticipants e) - int (length (participants e))))"

text \<open>
  The argument of \<open>Event.update\<close>. The outer \<open>None\<close> is \<open>undefined\<close> (the field is left
  alone); for the two nullable fields \<open>Some None\<close> is an explicit \<open>null\<close>.
\<close>

record eventPatch =
  p_title :: "string option"
  p_description :: "string option"
  p_date :: "timestamp option"
  p_time :: "string option"
  p_duration :: "int option"
  p_maxParticipants :: "int option option"
  p_status :: "string option"
  p_category :: "string option"
  p_isPublic :: "bool option"
  p_meetingLink :: "string option option"

definition assign :: "'a option \<Rightarrow> 'a \<Rightarrow> 'a" where
  "assign new old = (case new of None \<Rightarrow> old | Some v \<Rightarrow> v)"

definition event_update :: "event \<Rightarrow> eventPatch \<Rightarrow> timestamp \<Rightarrow> event" where
  "event_update e p now =
     e\<lparr> title := assign (p_title p) (title e),
        description := assign (p_description p) (description e),
        date := assign (p_date p) (date e),
        time := assign (p_time p) (time e),
        duration := assign (p_duration p) (duration e),
        maxParticipants := assign (p_maxParticipants p) (maxParticipants e),
        status := assign (p_status p) (status e),
        category := assign (p_category p) (category e),
        isPublic := assign (p_isPublic p) (isPublic e),
        meetingLink := assign (p_meetingLink p) (meetingLink e),
        updatedAt := now \<rparr>"

section \<open>EventStore\<close>

text \<open>
  The snapshot file holds what \<open>JSON.stringify\<close> writes: for each event the object
  returned by \<open>toJSON\<close>, with the three dates as ISO strings (a timestamp here stands for
  its ISO text, which \<open>new Date\<close> parses back to the same instant). A file may be absent,
  or present and not parseable. Writing the file is taken to succeed (the source logs and
  swallows a write error).
\<close>

record eventJSON =
  j_eid :: ident
  j_title :: string
  j_description :: string
  j_date :: timestamp
  j_time :: string
  j_duration :: int
  j_maxParticipants :: "int option"
  j_organizerId :: ident
  j_participants :: "ident list"
  j_participantCount :: int
  j_availableSpots :: "int option"
  j_status :: string
  j_category :: string
  j_isPublic :: bool
  j_meetingLink :: "string option"
  j_createdAt :: timestamp
  j_updatedAt :: timestamp

datatype 'a datafile = Absent | Corrupt | Snapshot "'a list"

record eventStore =
  events :: "event list"
  eventsFile :: "eventJSON datafile"

definition event_toJSON :: "event \<Rightarrow> eventJSON" where
  "event_toJSON e =
     \<lparr> j_eid = eid e,
       j_title = title e,
       j_description = description e,
       j_date = date e,
       j_time = time e,
       j_duration = duration e,
       j_maxParticipants = maxParticipants e,
       j_organizerId = organizerId e,
       j_participants = participants e,
       j_participantCount = getParticipantCount e,
       j_availableSpots = getAvailableSpots e,
       j_status = status e,
       j_category = category e,
       j_isPublic = isPublic e,
       j_meetingLink = meetingLink e,
       j_createdAt = createdAt e,
       j_updatedAt = updatedAt e \<rparr>"

text \<open>
  Rehydration of one record in \<open>EventStore.loadFromFile\<close>: the parsed properties are
  copied onto a fresh \<open>Event\<close> instance and the three dates are parsed again. The copied
  \<open>participantCount\<close> and \<open>availableSpots\<close> are plain properties that no method reads.
\<close>

definition event_revive :: "eventJSON \<Rightarrow> event" where
  "event_revive j =
     \<lparr> eid = j_eid j,
       title = j_title j,
       description = j_description j,
       date = j_date j,
       time = j_time j,
       duration = j_duration j,
       maxParticipants = j_maxParticipants j,
       organizerId = j_organizerId j,
       participants = j_participants j,
       status = j_status j,
       category = j_category j,
       isPublic = j_isPublic j,
       meetingLink = j_meetingLink j,
       createdAt = j_createdAt j,
       updatedAt = j_updatedAt j \<rparr>"

definition es_saveToFile :: "eventStore \<Rightarrow> eventStore" where
  "es_saveToFile s = s\<lparr>eventsFile := Snapshot (map event_toJSON (events s))\<rparr>"

definition es_loadFromFile :: "eventStore \<Rightarrow> eventStore" where
  "es_loadFromFile s =
     (case eventsFile s of
        Absent \<Rightarrow> s
      | Corrupt \<Rightarrow> s\<lparr>events := []\<rparr>
      | Snapshot js \<Rightarrow> s\<lparr>events := map event_revive js\<rparr>)"

text \<open>The constructor of the store: an empty array, then the load.\<close>

definition new_EventStore :: "eventJSON datafile \<Rightarrow> eventStore" where
  "new_EventStore f = es_loadFromFile \<lparr>events = [], eventsFile = f\<rparr>"

text \<open>
  Every operation returns its outcome together with the store afterwards. A \<open>throw\<close>
  leaves the function before any assignment, so the store comes back as it was.
\<close>

definition es_create ::
  "eventStore \<Rightarrow> eventData \<Rightarrow> ident \<Rightarrow> ident \<Rightarrow> timestamp \<Rightarrow> timestamp \<Rightarrow> event \<times> eventStore" where
  "es_create s d organizer uuid t1 t2 =
     (let event = new_Event d organizer uuid t1 t2
      in (event, es_saveToFile (s\<lparr>events := events s @ [event]\<rparr>)))"

definition es_findById :: "eventStore \<Rightarrow> ident \<Rightarrow> event option" where
  "es_findById s i = find (\<lambda>e. eid e = i) (events s)"

definition es_update ::
  "eventStore \<Rightarrow> ident \<Rightarrow> eventPatch \<Rightarrow> ident \<Rightarrow> timestamp \<Rightarrow> (error + event) \<times> eventStore" where
  "es_update s i updateData userId now =
     (case find (\<lambda>e. eid e = i) (events s) of
        None \<Rightarrow> (Inl EventNotFound, s)
      | Some event \<Rightarrow>
          if organizerId event \<noteq> userId then (Inl Unauthorized, s)
          else
            let event' = event_update event updateData now
            in (Inr event',
                es_saveToFile (s\<lparr>events := mutate_first (\<lambda>e. eid e = i) event' (events s)\<rparr>)))"

definition es_delete ::
  "eventStore \<Rightarrow> ident \<Rightarrow> ident \<Rightarrow> (error + bool) \<times> eventStore" where
  "es_delete s i userId =
     (case findIndex (\<lambda>e. eid e = i) (events s) of
        None \<Rightarrow> (Inl EventNotFound, s)
      | Some eventIndex \<Rightarrow>
          if organizerId (events s ! eventIndex) \<noteq> userId then (Inl Unauthorized, s)
          else (Inr True, es_saveToFile (s\<lparr>events := splice1 eventIndex (events s)\<rparr>)))"

definition registerParticipant ::
  "eventStore \<Rightarrow> ident \<Rightarrow> ident \<Rightarrow> timestamp \<Rightarrow> (error + event) \<times> eventStore" where
  "registerParticipant s eventId userId now =
     (case find (\<lambda>e. eid e = eventId) (events s) of
        None \<Rightarrow> (Inl EventNotFound, s)
      | Some event \<Rightarrow>
          (case addParticipant event userId now of
             Inl err \<Rightarrow> (Inl err, s)
           | Inr event' \<Rightarrow>
               (Inr event',
                es_saveToFile (s\<lparr>events := mutate_first (\<lambda>e. eid e = eventId) event' (events s)\<rparr>))))"

definition unregisterParticipant ::
  "eventStore \<Rightarrow> ident \<Rightarrow> ident \<Rightarrow> timestamp \<Rightarrow> (error + event) \<times> eventStore" where
  "unregisterParticipant s eventId userId now =
     (case find (\<lambda>e. eid e = eventId) (events s) of
        None \<Rightarrow> (Inl EventNotFound, s)
      | Some event \<Rightarrow>
          (case removeParticipant event userId now of
             Inl err \<Rightarrow> (Inl err, s)
           | Inr event' \<Rightarrow>
               (Inr event',
                es_saveToFile (s\<lparr>events := mutate_first (\<lambda>e. eid e = eventId) event' (events s)\<rparr>))))"

definition es_clear :: "eventStore \<Rightarrow> eventStore" where
  "es_clear s = es_saveToFile (s\<lparr>events := []\<rparr>)"

text \<open>
  The capacity invariant in the words of the specification (``\<open>participants\<close> length never
  exceeds \<open>maxParticipants\<close> when the latter is non-null''), for one event and for a store.
\<close>

definition within_capacity :: "event \<Rightarrow> bool" where
  "within_capacity e =
     (case maxParticipants e of
        None \<Rightarrow> True
      | Some n \<Rightarrow> int (length (participants e)) \<le> n)"

definition store_within_capacity :: "eventStore \<Rightarrow> bool" where
  "store_within_capacity s = list_all within_capacity (events s)"

section \<open>User\<close>

text \<open>
  \<open>String.prototype.toLowerCase\<close> is a built-in of the language, not code of the
  repository. Every store operation that calls it takes it as its first argument, named
  \<open>toLowerCase\<close>, and every general statement below holds for each function put in its
  place: nothing is assumed about which characters it changes.
\<close>

text \<open>
  A date property of a user holds a \<open>Date\<close> object, or the ISO string of an instant when
  the object was read back from the snapshot file. The password property is absent
  (\<open>None\<close>) on an object that was read back, because \<open>toJSON\<close> leaves it out.
\<close>

datatype datefield = DateObject timestamp | DateString timestamp

record user =
  uid :: ident
  email :: string
  password :: "string option"
  firstName :: string
  lastName :: string
  role :: string
  userCreatedAt :: datefield
  userUpdatedAt :: datefield
  isActive :: bool

record userData =
  ud_email :: string
  ud_password :: string
  ud_firstName :: string
  ud_lastName :: string
  ud_role :: "string option"

definition new_User :: "userData \<Rightarrow> ident \<Rightarrow> timestamp \<Rightarrow> timestamp \<Rightarrow> user" where
  "new_User d uuid t1 t2 =
     \<lparr> uid = uuid,
       email = ud_email d,
       password = Some (ud_password d),
       firstName = ud_firstName d,
       lastName = ud_lastName d,
       role = (if truthy_str (ud_role d) then the (ud_role d) else ''attendee''),
       userCreatedAt = DateObject t1,
       userUpdatedAt = DateObject t2,
       isActive = True \<rparr>"

text \<open>\<open>hashed\<close> is what \<open>bcrypt.hash\<close> returned for the password of the object.\<close>

definition hashPassword :: "user \<Rightarrow> string \<Rightarrow> user" where
  "hashPassword u hashed = u\<lparr>password := Some hashed\<rparr>"

record userPatch =
  up_firstName :: "string option"
  up_lastName :: "string option"
  up_email :: "string option"

definition user_update :: "user \<Rightarrow> userPatch \<Rightarrow> timestamp \<Rightarrow> user" where
  "user_update u p now =
     u\<lparr> firstName := assign (up_firstName p) (firstName u),
        lastName := assign (up_lastName p) (lastName u),
        email := assign (up_email p) (email u),
        userUpdatedAt := DateObject now \<rparr>"

section \<open>UserStore\<close>

text \<open>
  \<open>JSON.stringify\<close> calls \<open>User.toJSON\<close>, which copies every own property except
  \<open>password\<close>; a \<open>Date\<close> is written as its ISO string and a string as itself.
\<close>

record userJSON =
  ju_uid :: ident
  ju_email :: string
  ju_firstName :: string
  ju_lastName :: string
  ju_role :: string
  ju_createdAt :: timestamp
  ju_updatedAt :: timestamp
  ju_isActive :: bool

record userStore =
  users :: "user list"
  usersFile :: "userJSON datafile"

fun iso_text :: "datefield \<Rightarrow> timestamp" where
  "iso_text (DateObject t) = t"
| "iso_text (DateString t) = t"

definition user_toJSON :: "user \<Rightarrow> userJSON" where
  "user_toJSON u =
     \<lparr> ju_uid = uid u,
       ju_email = email u,
       ju_firstName = firstName u,
       ju_lastName = lastName u,
       ju_role = role u,
       ju_createdAt = iso_text (userCreatedAt u),
       ju_updatedAt = iso_text (userUpdatedAt u),
       ju_isActive = isActive u \<rparr>"

text \<open>
  Rehydration in \<open>UserStore.loadFromFile\<close> is \<open>Object.assign\<close> onto a fresh instance and
  nothing else: the two dates stay the strings that \<open>JSON.parse\<close> produced.
\<close>

definition user_revive :: "userJSON \<Rightarrow> user" where
  "user_revive j =
     \<lparr> uid = ju_uid j,
       email = ju_email j,
       password = None,
       firstName = ju_firstName j,
       lastName = ju_lastName j,
       role = ju_role j,
       userCreatedAt = DateString (ju_createdAt j),
       userUpdatedAt = DateString (ju_updatedAt j),
       isActive = ju_isActive j \<rparr>"

definition us_saveToFile :: "userStore \<Rightarrow> userStore" where
  "us_saveToFile s = s\<lparr>usersFile := Snapshot (map user_toJSON (users s))\<rparr>"

definition us_loadFromFile :: "userStore \<Rightarrow> userStore" where
  "us_loadFromFile s =
     (case usersFile s of
        Absent \<Rightarrow> s
      | Corrupt \<Rightarrow> s\<lparr>users := []\<rparr>
      | Snapshot js \<Rightarrow> s\<lparr>users := map user_revive js\<rparr>)"

definition new_UserStore :: "userJSON datafile \<Rightarrow> userStore" where
  "new_UserStore f = us_loadFromFile \<lparr>users = [], usersFile = f\<rparr>"

text \<open>
  \<open>create\<close> is \<open>async\<close> only to await the hash; the duplicate test and the insertion
  are one step here, as for a single caller. \<open>uuid\<close>, \<open>hashed\<close>, \<open>t1\<close> and \<open>t2\<close> are what
  \<open>uuidv4()\<close>, \<open>bcrypt.hash\<close> and the two clock readings of the constructor returned.
\<close>

definition us_create ::
  "(string \<Rightarrow> string) \<Rightarrow> userStore \<Rightarrow> userData \<Rightarrow> ident \<Rightarrow> string \<Rightarrow> timestamp \<Rightarrow> timestamp \<Rightarrow> (error + user) \<times> userStore" where
  "us_create toLowerCase s d uuid hashed t1 t2 =
     (case find (\<lambda>u. toLowerCase (email u) = toLowerCase (ud_email d)) (users s) of
        Some existingUser \<Rightarrow> (Inl DuplicateKey, s)
      | None \<Rightarrow>
          let user = hashPassword (new_User d uuid t1 t2) hashed
          in (Inr user, us_saveToFile (s\<lparr>users := users s @ [user]\<rparr>)))"

definition us_findById :: "userStore \<Rightarrow> ident \<Rightarrow> user option" where
  "us_findById s i = find (\<lambda>u. uid u = i) (users s)"

definition findByEmail :: "(string \<Rightarrow> string) \<Rightarrow> userStore \<Rightarrow> string \<Rightarrow> user option" where
  "findByEmail toLowerCase s e = find (\<lambda>u. toLowerCase (email u) = toLowerCase e) (users s)"

definition us_update ::
  "(string \<Rightarrow> string) \<Rightarrow> userStore \<Rightarrow> ident \<Rightarrow> userPatch \<Rightarrow> timestamp \<Rightarrow> (error + user) \<times> userStore" where
  "us_update toLowerCase s i updateData now =
     (case find (\<lambda>u. uid u = i) (users s) of
        None \<Rightarrow> (Inl UserNotFound, s)
      | Some user \<Rightarrow>
          if truthy_str (up_email updateData) \<and> the (up_email updateData) \<noteq> email user
             \<and> find (\<lambda>u. toLowerCase (email u) = toLowerCase (the (up_email updateData))) (users s)
                 \<noteq> None
          then (Inl DuplicateKey, s)
          else
            let user' = user_update user updateData now
            in (Inr user',
                us_saveToFile (s\<lparr>users := mutate_first (\<lambda>u. uid u = i) user' (users s)\<rparr>)))"

definition us_delete :: "userStore \<Rightarrow> ident \<Rightarrow> (error + bool) \<times> userStore" where
  "us_delete s i =
     (case findIndex (\<lambda>u. uid u = i) (users s) of
        None \<Rightarrow> (Inl UserNotFound, s)
      | Some userIndex \<Rightarrow>
          (Inr True, us_saveToFile (s\<lparr>users := splice1 userIndex (users s)\<rparr>)))"

text \<open>
  A run of \<open>create\<close> calls, each with the values its constructor drew (identifier, hash,
  two clock readings); the run stops at the first call that throws.
\<close>

type_synonym create_call = "userData \<times> ident \<times> string \<times> timestamp \<times> timestamp"

fun call_email :: "create_call \<Rightarrow> string" where
  "call_email (d, uuid, hashed, t1, t2) = ud_email d"

fun created_user :: "create_call \<Rightarrow> user" where
  "created_user (d, uuid, hashed, t1, t2) = hashPassword (new_User d uuid t1 t2) hashed"

fun create_all ::
  "(string \<Rightarrow> string) \<Rightarrow> userStore \<Rightarrow> create_call list \<Rightarrow> error + userStore" where
  "create_all toLowerCase s [] = Inr s"
| "create_all toLowerCase s ((d, uuid, hashed, t1, t2) # cs) =
     (case us_create toLowerCase s d uuid hashed t1 t2 of
        (Inl err, s') \<Rightarrow> Inl err
      | (Inr u, s') \<Rightarrow> create_all toLowerCase s' cs)"

section \<open>Authentication middleware\<close>

text \<open>
  \<open>jwt.verify\<close> with the process secret is a parameter: it returns the decoded payload,
  of which only \<open>userId\<close> is read (\<open>None\<close> when the payload has none), or throws an error
  whose \<open>name\<close> the handler inspects.
\<close>

datatype jwt_result = Decoded "ident option" | Throws string

record body =
  error_text :: string
  message_text :: string

datatype auth_outcome = Next user | Respond nat body

definition ACCESS_DENIED :: string where "ACCESS_DENIED = ''Access denied''"
definition INVALID_TOKEN :: string where "INVALID_TOKEN = ''Invalid token''"
definition TOKEN_EXPIRED :: string where "TOKEN_EXPIRED = ''Token expired''"
definition UNAUTHORIZED :: nat where "UNAUTHORIZED = 401"
definition INTERNAL_SERVER_ERROR :: nat where "INTERNAL_SERVER_ERROR = 500"

text \<open>\<open>split(' ')\<close>: the pieces between single spaces, at least one piece.\<close>

fun split_space :: "string \<Rightarrow> string list" where
  "split_space [] = [[]]"
| "split_space (c # cs) =
     (if c = CHR '' '' then [] # split_space cs
      else (case split_space cs of
              [] \<Rightarrow> [[c]]
            | p # ps \<Rightarrow> (c # p) # ps))"

text \<open>
  \<open>authHeader && authHeader.split(' ')[1]\<close>: an absent header gives \<open>undefined\<close>, an empty
  one gives itself, otherwise the second piece or \<open>undefined\<close>.
\<close>

definition header_token :: "string option \<Rightarrow> string option" where
  "header_token authHeader =
     (case authHeader of
        None \<Rightarrow> None
      | Some h \<Rightarrow>
          if h = [] then Some []
          else (case split_space h of
                  a # t # rest \<Rightarrow> Some t
                | _ \<Rightarrow> None))"

definition authenticateToken ::
  "(string \<Rightarrow> jwt_result) \<Rightarrow> userStore \<Rightarrow> string option \<Rightarrow> auth_outcome" where
  "authenticateToken jwt_verify store authHeader =
     (let token = header_token authHeader in
      if \<not> truthy_str token
      then Respond UNAUTHORIZED \<lparr>error_text = ACCESS_DENIED, message_text = ''No token provided''\<rparr>
      else
        (case jwt_verify (the token) of
           Decoded userId \<Rightarrow>
             (case (case userId of None \<Rightarrow> None | Some i \<Rightarrow> us_findById store i) of
                None \<Rightarrow>
                  Respond UNAUTHORIZED \<lparr>error_text = ACCESS_DENIED, message_text = INVALID_TOKEN\<rparr>
              | Some user \<Rightarrow>
                  if \<not> isActive user
                  then Respond UNAUTHORIZED
                         \<lparr>error_text = ACCESS_DENIED, message_text = INVALID_TOKEN\<rparr>
                  else Next user)
         | Throws name \<Rightarrow>
             if name = ''TokenExpiredError''
             then Respond UNAUTHORIZED \<lparr>error_text = ACCESS_DENIED, message_text = TOKEN_EXPIRED\<rparr>
             else if name = ''JsonWebTokenError''
             then Respond UNAUTHORIZED \<lparr>error_text = ACCESS_DENIED, message_text = INVALID_TOKEN\<rparr>
             else Respond INTERNAL_SERVER_ERROR
                    \<lparr>error_text = ''Internal server error'',
                     message_text = ''Token verification failed''\<rparr>))"

section \<open>Runs of calls\<close>

text \<open>
  Registering a list of users on one event, one \<open>addParticipant\<close> call after the other,
  each with its own clock reading; the run stops at the first call that throws.
\<close>

fun add_all :: "event \<Rightarrow> (ident \<times> timestamp) list \<Rightarrow> error + event" where
  "add_all e [] = Inr e"
| "add_all e ((u, now) # rest) =
     (case addParticipant e u now of
        Inl err \<Rightarrow> Inl err
      | Inr e' \<Rightarrow> add_all e' rest)"

text \<open>
  The same run through the store: one \<open>registerParticipant\<close> call per user, on the
  event with the given identifier, each call on the store that the call before left.
\<close>

fun register_all ::
  "eventStore \<Rightarrow> ident \<Rightarrow> (ident \<times> timestamp) list \<Rightarrow> error + eventStore" where
  "register_all s eventId [] = Inr s"
| "register_all s eventId ((u, now) # rest) =
     (case registerParticipant s eventId u now of
        (Inl err, s') \<Rightarrow> Inl err
      | (Inr e', s') \<Rightarrow> register_all s' eventId rest)"

section \<open>Example data\<close>

definition demo_event :: event where
  "demo_event =
     \<lparr> eid = ''e1'', title = ''Launch'', description = ''Product launch webinar'',
       date = 1700000000000, time = ''10:00'', duration = 60, maxParticipants = Some 2,
       organizerId = ''org'', participants = [''a'', ''b''], status = ''scheduled'',
       category = ''general'', isPublic = True, meetingLink = None,
       createdAt = 1000, updatedAt = 2000 \<rparr>"

definition zero_event :: event where
  "zero_event = demo_event\<lparr>maxParticipants := Some 0\<rparr>"

definition demo_eventStore :: eventStore where
  "demo_eventStore = es_saveToFile \<lparr>events = [demo_event], eventsFile = Absent\<rparr>"

definition zero_eventStore :: eventStore where
  "zero_eventStore = es_saveToFile \<lparr>events = [zero_event], eventsFile = Absent\<rparr>"

definition shrink_patch :: eventPatch where
  "shrink_patch =
     \<lparr> p_title = None, p_description = None, p_date = None, p_time = None,
       p_duration = None, p_maxParticipants = Some (Some 1), p_status = None,
       p_category = None, p_isPublic = None, p_meetingLink = None \<rparr>"

definition grow_patch :: eventPatch where
  "grow_patch = shrink_patch\<lparr>p_maxParticipants := Some (Some 5)\<rparr>"

text \<open>
  A stand-in for \<open>toLowerCase\<close> in the examples: it lowers the letters \<open>A\<close> to \<open>Z\<close> and
  is applied to ASCII text only, where \<open>String.prototype.toLowerCase\<close> does the same.
\<close>

definition lower_ascii_char :: "char \<Rightarrow> char" where
  "lower_ascii_char c =
     (let n = (of_char c :: nat) in if 65 \<le> n \<and> n \<le> 90 then char_of (n + 32) else c)"

definition lower_ascii :: "string \<Rightarrow> string" where
  "lower_ascii s = map lower_ascii_char s"

definition demo_userData :: userData where
  "demo_userData =
     \<lparr> ud_email = ''Test@Example.com'', ud_password = ''Secret123!'',
       ud_firstName = ''John'', ud_lastName = ''Doe'', ud_role = None \<rparr>"

definition dup_userData :: userData where
  "dup_userData = demo_userData\<lparr>ud_email := ''test@example.com''\<rparr>"

definition demo_call :: create_call where
  "demo_call = (demo_userData, ''u1'', ''$2a$12$abcdefgh'', 1000, 1001)"

definition bob_call :: create_call where
  "bob_call =
     (\<lparr> ud_email = ''bob@example.com'', ud_password = ''Hunter22!'',
        ud_firstName = ''Bob'', ud_lastName = ''Ray'', ud_role = Some ''organizer'' \<rparr>,
      ''u2'', ''$2a$12$ijklmnop'', 2000, 2000)"

definition demo_user :: user where
  "demo_user = created_user demo_call"

definition empty_userStore :: userStore where
  "empty_userStore = new_UserStore Absent"

text \<open>The store after the first \<open>create\<close> call on the empty store (lemma \<open>demo_create\<close>).\<close>

definition demo_userStore :: userStore where
  "demo_userStore = us_saveToFile (empty_userStore\<lparr>users := [demo_user]\<rparr>)"

definition lower_email_patch :: userPatch where
  "lower_email_patch =
     \<lparr> up_firstName = None, up_lastName = None, up_email = Some ''test@example.com'' \<rparr>"

text \<open>A stand-in for \<open>jwt.verify\<close> that accepts two tokens and rejects the rest.\<close>

definition demo_verify :: "string \<Rightarrow> jwt_result" where
  "demo_verify t =
     (if t = ''good.u1'' then Decoded (Some ''u1'')
      else if t = ''good.u2'' then Decoded (Some ''u2'')
      else if t = ''old'' then Throws ''TokenExpiredError''
      else Throws ''JsonWebTokenError'')"

section \<open>Auxiliary facts\<close>

subsection \<open>Array helpers\<close>

lemma find_distinct_key:
  "distinct (map f xs) \<Longrightarrow> x \<in> set xs \<Longrightarrow> find (\<lambda>y. f y = f x) xs = Some x"
  by (induction xs) (auto simp: rev_image_eqI)

lemma findIndex_distinct_key:
  "distinct (map f xs) \<Longrightarrow> x \<in> set xs \<Longrightarrow>
     \<exists>i. findIndex (\<lambda>y. f y = f x) xs = Some i \<and> i < length xs \<and> xs ! i = x"
  by (induction xs) (auto simp: rev_image_eqI)

lemma find_Some_in: "find P xs = Some x \<Longrightarrow> x \<in> set xs \<and> P x"
  by (induction xs) (auto split: if_splits)

lemma find_append_none:
  "find P xs = None \<Longrightarrow> find P (xs @ ys) = find P ys"
  by (induction xs) (auto split: if_splits)

lemma find_None_iff_all: "find P xs = None \<longleftrightarrow> (\<forall>x \<in> set xs. \<not> P x)"
  by (induction xs) auto

lemma mutate_first_keys:
  "f y = k \<Longrightarrow> map f (mutate_first (\<lambda>x. f x = k) y xs) = map f xs"
  by (induction xs) auto

lemma find_mutate_first:
  "find (\<lambda>x. f x = k) xs = Some x \<Longrightarrow> f y = k \<Longrightarrow>
     find (\<lambda>x. f x = k) (mutate_first (\<lambda>x. f x = k) y xs) = Some y"
  by (induction xs) (auto split: if_splits)

lemma indexOf_absent: "v \<notin> set xs \<Longrightarrow> indexOf xs v = None"
  unfolding indexOf_def by (induction xs) auto

lemma length_splice1: "length (splice1 i xs) \<le> length xs"
  by (simp add: splice1_def)

subsection \<open>Example data\<close>

lemma demo_event_stored:
  "demo_event \<in> set (events demo_eventStore)" "distinct (map eid (events demo_eventStore))"
  by (simp_all add: demo_eventStore_def es_saveToFile_def)

lemma zero_event_stored:
  "zero_event \<in> set (events zero_eventStore)" "distinct (map eid (events zero_eventStore))"
  by (simp_all add: zero_eventStore_def es_saveToFile_def)

lemma lower_demo: "lower_ascii ''Test@Example.com'' = ''test@example.com''"
  by code_simp

lemma lower_lower_demo: "lower_ascii ''test@example.com'' = ''test@example.com''"
  by code_simp

lemma demo_user_fields:
  "uid demo_user = ''u1''" "email demo_user = ''Test@Example.com''"
  "password demo_user = Some ''$2a$12$abcdefgh''"
  "userCreatedAt demo_user = DateObject 1000" "userUpdatedAt demo_user = DateObject 1001"
  by (simp_all add: demo_user_def demo_call_def demo_userData_def hashPassword_def new_User_def)

lemma demo_create:
  "us_create toLowerCase empty_userStore demo_userData ''u1'' ''$2a$12$abcdefgh'' 1000 1001
     = (Inr demo_user, demo_userStore)"
  by (simp add: demo_userStore_def empty_userStore_def new_UserStore_def us_loadFromFile_def
      us_create_def us_saveToFile_def demo_user_def demo_call_def Let_def)

lemma demo_userStore_users: "users demo_userStore = [demo_user]"
  by (simp add: demo_userStore_def us_saveToFile_def)

subsection \<open>Event methods\<close>

lemma addParticipant_member:
  "u \<in> set (participants E) \<Longrightarrow>
     addParticipant E u now =
       Inl (if truthy_num (maxParticipants E)
               \<and> the (maxParticipants E) \<le> int (length (participants E))
            then EventFull else AlreadyRegistered)"
  by (simp add: addParticipant_def)

lemma removeParticipant_absent:
  "u \<notin> set (participants E) \<Longrightarrow> removeParticipant E u now = Inl NotRegistered"
  by (simp add: removeParticipant_def indexOf_absent)

text \<open>
  The two registration methods keep the capacity bound, provided the bound is not the
  number \<open>0\<close> (which \<open>addParticipant\<close> reads as ``no bound'').
\<close>

lemma addParticipant_keeps_capacity:
  assumes "within_capacity e" and "maxParticipants e \<noteq> Some 0"
    and "addParticipant e u now = Inr e'"
  shows "within_capacity e'"
  using assms
  by (auto simp: addParticipant_def within_capacity_def truthy_num_def
      split: if_splits option.splits)

lemma removeParticipant_keeps_capacity:
  assumes "within_capacity e" and "removeParticipant e u now = Inr e'"
  shows "within_capacity e'"
proof -
  obtain i where e': "e' = e\<lparr>participants := splice1 i (participants e), updatedAt := now\<rparr>"
    using assms(2) by (auto simp: removeParticipant_def split: option.splits)
  have "length (splice1 i (participants e)) \<le> length (participants e)"
    by (rule length_splice1)
  then show ?thesis
    using assms(1) unfolding e' by (auto simp: within_capacity_def split: option.splits)
qed

section \<open>Registration at capacity\<close>

text \<open>
  Claim C1. An event whose \<open>maxParticipants\<close> is a number \<open>N \<ge> 1\<close> and whose participant
  list already has \<open>N\<close> entries rejects every further registration with \<open>EventFull\<close>, at
  the method (\<open>addParticipant\<close>) and at the store (\<open>registerParticipant\<close>); the store,
  and with it the participant list of the event, is the same after the failed call.
  Identifiers of stored events are unique, as the data model requires.
\<close>

theorem full_event_rejects_registration:
  assumes "maxParticipants E = Some N" and "1 \<le> N" and "int (length (participants E)) = N"
    and "E \<in> set (events s)" and "distinct (map eid (events s))"
  shows "addParticipant E userId now = Inl EventFull
       \<and> registerParticipant s (eid E) userId now = (Inl EventFull, s)"
proof -
  have full: "addParticipant E userId now = Inl EventFull"
    using assms(1-3) by (simp add: addParticipant_def truthy_num_def)
  have found: "find (\<lambda>e. eid e = eid E) (events s) = Some E"
    using assms(4,5) by (simp add: find_distinct_key)
  show ?thesis
    using full found by (simp add: registerParticipant_def)
qed

theorem full_event_rejects_registration_witness:
  "addParticipant demo_event ''c'' 3000 = Inl EventFull
   \<and> registerParticipant demo_eventStore ''e1'' ''c'' 3000 = (Inl EventFull, demo_eventStore)"
proof -
  have cap: "maxParticipants demo_event = Some 2" "(1::int) \<le> 2"
      "int (length (participants demo_event)) = 2"
    by (simp_all add: demo_event_def)
  have key: "eid demo_event = ''e1''"
    by (simp add: demo_event_def)
  show ?thesis
    using full_event_rejects_registration [OF cap demo_event_stored, of "''c''" 3000]
    unfolding key by simp
qed

section \<open>The capacity bound under update\<close>

lemma event_update_sets_bound:
  assumes "p_maxParticipants p = Some m"
  shows "maxParticipants (event_update e p now) = m"
    and "participants (event_update e p now) = participants e"
  using assms by (simp_all add: event_update_def assign_def)

text \<open>
  Claim C2. The claim says that every store operation keeps
  \<open>participants.length \<le> maxParticipants\<close>, \<open>update\<close> with a new \<open>maxParticipants\<close>
  included. \<open>Event.update\<close> assigns the new bound without looking at the participant
  list: on a store that satisfies the bound, with an event that holds two participants
  under a bound of two, the organizer's patch \<open>{maxParticipants: 1}\<close> is applied and the
  store no longer satisfies the bound.
\<close>

theorem update_can_break_capacity_bound:
  "store_within_capacity demo_eventStore
   \<and> fst (es_update demo_eventStore ''e1'' shrink_patch ''org'' 3000)
       = Inr (demo_event\<lparr>maxParticipants := Some 1, updatedAt := 3000\<rparr>)
   \<and> \<not> store_within_capacity (snd (es_update demo_eventStore ''e1'' shrink_patch ''org'' 3000))"
  by (simp add: demo_event_def demo_eventStore_def es_saveToFile_def store_within_capacity_def
      within_capacity_def es_update_def event_update_def shrink_patch_def assign_def Let_def)

section \<open>Membership failures\<close>

text \<open>
  Claim C3, as stated, at a concrete input: user \<open>a\<close> is registered for an event that is
  at capacity; registering \<open>a\<close> again fails with \<open>EventFull\<close>, not with
  \<open>AlreadyRegistered\<close>, because the capacity test comes first.
\<close>

theorem reregistration_on_full_event_counterexample:
  "''a'' \<in> set (participants demo_event)
   \<and> addParticipant demo_event ''a'' 3000 = Inl EventFull
   \<and> addParticipant demo_event ''a'' 3000 \<noteq> Inl AlreadyRegistered"
  by (simp add: demo_event_def addParticipant_def truthy_num_def)

text \<open>
  Claim C3, amended. For a stored event \<open>E\<close> and a user \<open>u\<close>: if \<open>u\<close> is already a
  participant, registering \<open>u\<close> again fails, with \<open>EventFull\<close> when \<open>E\<close> is at capacity and
  with \<open>AlreadyRegistered\<close> otherwise; if \<open>u\<close> is not a participant, unregistering \<open>u\<close>
  fails with \<open>NotRegistered\<close>. In each of these failures the store, and so \<open>E\<close> with its
  participant list and \<open>updatedAt\<close>, is unchanged.
\<close>

theorem membership_failures_leave_event_unchanged:
  assumes "E \<in> set (events s)" and "distinct (map eid (events s))"
  shows "(u \<in> set (participants E) \<longrightarrow>
            addParticipant E u now =
              Inl (if truthy_num (maxParticipants E)
                      \<and> the (maxParticipants E) \<le> int (length (participants E))
                   then EventFull else AlreadyRegistered)
          \<and> registerParticipant s (eid E) u now =
              (Inl (if truthy_num (maxParticipants E)
                       \<and> the (maxParticipants E) \<le> int (length (participants E))
                    then EventFull else AlreadyRegistered), s))
       \<and> (u \<notin> set (participants E) \<longrightarrow>
            removeParticipant E u now = Inl NotRegistered
          \<and> unregisterParticipant s (eid E) u now = (Inl NotRegistered, s))"
proof -
  have found: "find (\<lambda>e. eid e = eid E) (events s) = Some E"
    using assms by (simp add: find_distinct_key)
  have reg: "registerParticipant s (eid E) u now =
               (Inl (if truthy_num (maxParticipants E)
                        \<and> the (maxParticipants E) \<le> int (length (participants E))
                     then EventFull else AlreadyRegistered), s)"
    if "u \<in> set (participants E)"
    using found addParticipant_member [OF that, of now]
    by (simp add: registerParticipant_def)
  have unreg: "unregisterParticipant s (eid E) u now = (Inl NotRegistered, s)"
    if "u \<notin> set (participants E)"
    using found removeParticipant_absent [OF that, of now]
    by (simp add: unregisterParticipant_def)
  show ?thesis
    using reg unreg addParticipant_member removeParticipant_absent by blast
qed

theorem membership_failures_leave_event_unchanged_witness:
  "registerParticipant demo_eventStore ''e1'' ''a'' 3000 = (Inl EventFull, demo_eventStore)
   \<and> registerParticipant (snd (es_update demo_eventStore ''e1'' grow_patch ''org'' 2500))
         ''e1'' ''a'' 3000
       = (Inl AlreadyRegistered, snd (es_update demo_eventStore ''e1'' grow_patch ''org'' 2500))
   \<and> unregisterParticipant demo_eventStore ''e1'' ''zoe'' 3000
       = (Inl NotRegistered, demo_eventStore)"
  using membership_failures_leave_event_unchanged
          [of demo_event demo_eventStore "''a''" 3000]
        membership_failures_leave_event_unchanged
          [of demo_event demo_eventStore "''zoe''" 3000]
        membership_failures_leave_event_unchanged
          [of "demo_event\<lparr>maxParticipants := Some 5, updatedAt := 2500\<rparr>"
              "snd (es_update demo_eventStore ''e1'' grow_patch ''org'' 2500)" "''a''" 3000]
  by (simp add: demo_event_def demo_eventStore_def es_saveToFile_def truthy_num_def
      es_update_def event_update_def grow_patch_def shrink_patch_def assign_def Let_def)

section \<open>Ownership\<close>

text \<open>
  Claim C4. For a stored event \<open>E\<close> and an acting user \<open>a\<close> other than its organizer,
  \<open>update\<close> and \<open>delete\<close> fail with \<open>Unauthorized\<close>; the store is the same afterwards
  and still returns \<open>E\<close>, with every field as before, for the identifier of \<open>E\<close>.
  Identifiers of stored events are unique, as the data model requires.
\<close>

theorem non_organizer_cannot_update_or_delete:
  assumes "E \<in> set (events s)" and "distinct (map eid (events s))" and "a \<noteq> organizerId E"
  shows "es_update s (eid E) patch a now = (Inl Unauthorized, s)
       \<and> es_delete s (eid E) a = (Inl Unauthorized, s)
       \<and> es_findById (snd (es_update s (eid E) patch a now)) (eid E) = Some E
       \<and> es_findById (snd (es_delete s (eid E) a)) (eid E) = Some E"
proof -
  have found: "find (\<lambda>e. eid e = eid E) (events s) = Some E"
    using assms(1,2) by (simp add: find_distinct_key)
  obtain i where idx: "findIndex (\<lambda>e. eid e = eid E) (events s) = Some i" "events s ! i = E"
    using findIndex_distinct_key [OF assms(2,1)] by blast
  have upd: "es_update s (eid E) patch a now = (Inl Unauthorized, s)"
    using found assms(3) by (simp add: es_update_def)
  have del: "es_delete s (eid E) a = (Inl Unauthorized, s)"
    using idx assms(3) by (simp add: es_delete_def)
  show ?thesis
    using upd del found by (simp add: es_findById_def)
qed

theorem non_organizer_cannot_update_or_delete_witness:
  "es_update demo_eventStore ''e1'' shrink_patch ''mallory'' 3000
     = (Inl Unauthorized, demo_eventStore)
   \<and> es_delete demo_eventStore ''e1'' ''mallory'' = (Inl Unauthorized, demo_eventStore)
   \<and> es_findById demo_eventStore ''e1'' = Some demo_event"
proof -
  have other: "''mallory'' \<noteq> organizerId demo_event"
    by (simp add: demo_event_def)
  have key: "eid demo_event = ''e1''"
    by (simp add: demo_event_def)
  show ?thesis
    using non_organizer_cannot_update_or_delete [OF demo_event_stored other, of shrink_patch 3000]
    unfolding key by (elim conjE) simp
qed

section \<open>Case-insensitive e-mail lookup\<close>

lemma us_create_fresh:
  assumes "\<forall>u \<in> set (users s). toLowerCase (email u) \<noteq> toLowerCase (ud_email d)"
  shows "\<exists>s'. us_create toLowerCase s d uuid hashed t1 t2 = (Inr (created_user (d, uuid, hashed, t1, t2)), s')
           \<and> users s' = users s @ [created_user (d, uuid, hashed, t1, t2)]"
proof -
  have "find (\<lambda>u. toLowerCase (email u) = toLowerCase (ud_email d)) (users s) = None"
    using assms by (simp add: find_None_iff_all)
  then show ?thesis
    by (simp add: us_create_def Let_def us_saveToFile_def)
qed

lemma us_create_duplicate:
  assumes "u \<in> set (users s)" and "toLowerCase (email u) = toLowerCase (ud_email d)"
  shows "us_create toLowerCase s d uuid hashed t1 t2 = (Inl DuplicateKey, s)"
proof -
  have "find (\<lambda>u. toLowerCase (email u) = toLowerCase (ud_email d)) (users s) \<noteq> None"
    using assms by (auto simp: find_None_iff_all)
  then show ?thesis
    by (auto simp: us_create_def)
qed

lemma created_user_email: "email (created_user c) = call_email c"
  by (cases c) (simp add: hashPassword_def new_User_def)

lemma create_all_users:
  assumes "distinct (map (\<lambda>c. toLowerCase (call_email c)) calls)"
    and "\<forall>u \<in> set (users s). \<forall>c \<in> set calls.
           toLowerCase (email u) \<noteq> toLowerCase (call_email c)"
  shows "\<exists>s'. create_all toLowerCase s calls = Inr s' \<and> users s' = users s @ map created_user calls"
  using assms
proof (induction calls arbitrary: s)
  case Nil
  then show ?case by simp
next
  case (Cons c calls)
  obtain d uuid hashed t1 t2 where c: "c = (d, uuid, hashed, t1, t2)"
    by (cases c)
  have "\<forall>u \<in> set (users s). toLowerCase (email u) \<noteq> toLowerCase (ud_email d)"
    using Cons.prems(2) c by simp
  then obtain s1 where s1: "us_create toLowerCase s d uuid hashed t1 t2 = (Inr (created_user c), s1)"
      "users s1 = users s @ [created_user c]"
    using us_create_fresh [of s toLowerCase d uuid hashed t1 t2] c by auto
  have d1: "distinct (map (\<lambda>c. toLowerCase (call_email c)) calls)"
    using Cons.prems(1) by simp
  have d2: "\<forall>u \<in> set (users s1). \<forall>c' \<in> set calls.
              toLowerCase (email u) \<noteq> toLowerCase (call_email c')"
    using Cons.prems s1(2) by (auto simp: created_user_email)
  obtain s' where "create_all toLowerCase s1 calls = Inr s'" "users s' = users s1 @ map created_user calls"
    using Cons.IH [OF d1 d2] by blast
  then show ?case
    using s1 c by simp
qed

text \<open>
  Claim C5. Two e-mails are the same up to letter case when \<open>toLowerCase\<close> maps them
  to the same string; this is the comparison of the source, whatever \<open>toLowerCase\<close>
  does to each character. Take a run of \<open>create\<close> calls whose e-mails are pairwise
  distinct up to letter case, on a store none of whose e-mails matches one of them (the
  empty store in particular). Every call succeeds; afterwards \<open>findByEmail\<close>, given any string that
  agrees with the e-mail of one of the calls up to letter case, returns the user that
  this call created; and a further \<open>create\<close> whose e-mail agrees with one of them up to
  letter case fails with \<open>DuplicateKey\<close> and leaves the store as it was.
\<close>

theorem create_then_findByEmail:
  assumes "distinct (map (\<lambda>c. toLowerCase (call_email c)) calls)"
    and "\<forall>u \<in> set (users s). \<forall>c \<in> set calls.
           toLowerCase (email u) \<noteq> toLowerCase (call_email c)"
  shows "\<exists>s'. create_all toLowerCase s calls = Inr s'
          \<and> (\<forall>c \<in> set calls. \<forall>e. toLowerCase e = toLowerCase (call_email c) \<longrightarrow>
                findByEmail toLowerCase s' e = Some (created_user c))
          \<and> (\<forall>c \<in> set calls. \<forall>d uuid hashed t1 t2.
                toLowerCase (ud_email d) = toLowerCase (call_email c) \<longrightarrow>
                us_create toLowerCase s' d uuid hashed t1 t2 = (Inl DuplicateKey, s'))"
proof -
  obtain s' where s': "create_all toLowerCase s calls = Inr s'"
      "users s' = users s @ map created_user calls"
    using create_all_users [OF assms] by blast
  have lookup: "findByEmail toLowerCase s' e = Some (created_user c)"
    if "c \<in> set calls" "toLowerCase e = toLowerCase (call_email c)" for c e
  proof -
    have old: "find (\<lambda>u. toLowerCase (email u) = toLowerCase e) (users s) = None"
      using assms(2) that by (simp add: find_None_iff_all)
    have dist: "distinct (map (\<lambda>u. toLowerCase (email u)) (map created_user calls))"
      using assms(1) by (simp add: comp_def created_user_email)
    have mem: "created_user c \<in> set (map created_user calls)"
      using that(1) by simp
    have "find (\<lambda>u. toLowerCase (email u) = toLowerCase (email (created_user c)))
            (map created_user calls) = Some (created_user c)"
      using find_distinct_key [where f = "\<lambda>u. toLowerCase (email u)", OF dist mem] .
    then have "find (\<lambda>u. toLowerCase (email u) = toLowerCase e) (map created_user calls)
                 = Some (created_user c)"
      using that(2) by (simp add: created_user_email)
    then show ?thesis
      using old by (simp add: findByEmail_def s'(2) find_append_none)
  qed
  have dup: "us_create toLowerCase s' d uuid hashed t1 t2 = (Inl DuplicateKey, s')"
    if "c \<in> set calls" "toLowerCase (ud_email d) = toLowerCase (call_email c)"
    for c d uuid hashed t1 t2
  proof -
    have "created_user c \<in> set (users s')"
      using that(1) s'(2) by simp
    then show ?thesis
      using that(2) by (intro us_create_duplicate) (auto simp: created_user_email)
  qed
  show ?thesis
    using s'(1) lookup dup by blast
qed

theorem create_then_findByEmail_witness:
  "\<exists>s'. create_all lower_ascii empty_userStore [demo_call, bob_call] = Inr s'
       \<and> findByEmail lower_ascii s' ''TEST@EXAMPLE.COM'' = Some (created_user demo_call)
       \<and> us_create lower_ascii s' dup_userData ''u3'' ''$2a$12$qrstuvwx'' 3000 3000 = (Inl DuplicateKey, s')"
proof -
  have h1: "distinct (map (\<lambda>c. lower_ascii (call_email c)) [demo_call, bob_call])"
    by code_simp
  have h2: "\<forall>u \<in> set (users empty_userStore). \<forall>c \<in> set [demo_call, bob_call].
              lower_ascii (email u) \<noteq> lower_ascii (call_email c)"
    by (simp add: empty_userStore_def new_UserStore_def us_loadFromFile_def)
  have v1: "lower_ascii ''TEST@EXAMPLE.COM'' = lower_ascii (call_email demo_call)"
    by code_simp
  have v2: "lower_ascii (ud_email dup_userData) = lower_ascii (call_email demo_call)"
    by code_simp
  obtain s' where s': "create_all lower_ascii empty_userStore [demo_call, bob_call] = Inr s'"
      "\<forall>c \<in> set [demo_call, bob_call]. \<forall>e. lower_ascii e = lower_ascii (call_email c) \<longrightarrow>
          findByEmail lower_ascii s' e = Some (created_user c)"
      "\<forall>c \<in> set [demo_call, bob_call]. \<forall>d uuid hashed t1 t2.
          lower_ascii (ud_email d) = lower_ascii (call_email c) \<longrightarrow>
          us_create lower_ascii s' d uuid hashed t1 t2 = (Inl DuplicateKey, s')"
    using create_then_findByEmail [of lower_ascii, OF h1 h2] by blast
  have "findByEmail lower_ascii s' ''TEST@EXAMPLE.COM'' = Some (created_user demo_call)"
    using s'(2) v1 by simp
  moreover have "us_create lower_ascii s' dup_userData ''u3'' ''$2a$12$qrstuvwx'' 3000 3000
                   = (Inl DuplicateKey, s')"
    using s'(3) v2 by simp
  ultimately show ?thesis
    using s'(1) by blast
qed

section \<open>The stored e-mail\<close>

text \<open>
  What \<open>create\<close> stores, for each function in place of \<open>toLowerCase\<close>: an accepted
  input is appended at the end of the collection with its e-mail exactly as given.
\<close>

lemma us_create_keeps_email:
  assumes "us_create toLowerCase s d uuid hashed t1 t2 = (Inr u, s')"
  shows "email u = ud_email d" and "users s' = users s @ [u]"
  using assms
  by (auto simp: us_create_def Let_def us_saveToFile_def hashPassword_def new_User_def
      split: option.splits)

text \<open>
  Claim C6. The claim says that the stored e-mail is the lowercase form of the input
  for every accepted input, mixed case included; the store test of the repository
  (``should create a user successfully'') states the same, \<open>user.email\<close> being
  \<open>userData.email.toLowerCase()\<close> after \<open>userStore.create\<close>. On the empty store \<open>create\<close>
  accepts \<open>Test@Example.com\<close>, and the stored user carries this string unchanged, which
  is not its lowercase form \<open>test@example.com\<close>.
\<close>

theorem mixed_case_email_stored_as_given:
  "us_create lower_ascii empty_userStore demo_userData ''u1'' ''$2a$12$abcdefgh'' 1000 1001
     = (Inr demo_user, demo_userStore)
   \<and> users demo_userStore = [demo_user]
   \<and> ud_email demo_userData = ''Test@Example.com''
   \<and> lower_ascii (ud_email demo_userData) = ''test@example.com''
   \<and> email demo_user = ''Test@Example.com''
   \<and> email demo_user \<noteq> lower_ascii (ud_email demo_userData)"
  using demo_create [of lower_ascii]
  by (simp add: demo_user_fields demo_userStore_users demo_userData_def lower_demo)

section \<open>Changing an e-mail\<close>

text \<open>
  When \<open>update\<close> on a stored user answers \<open>DuplicateKey\<close>: the patch carries a non-empty
  e-mail that differs from the stored one as a string, and some stored user, the
  updated one not excepted, holds it up to letter case.
\<close>

lemma us_update_duplicate_iff:
  assumes "find (\<lambda>u. uid u = i) (users s) = Some usr"
  shows "fst (us_update toLowerCase s i p now) = Inl DuplicateKey \<longleftrightarrow>
           (\<exists>e. up_email p = Some e \<and> e \<noteq> [] \<and> e \<noteq> email usr
               \<and> (\<exists>u \<in> set (users s). toLowerCase (email u) = toLowerCase e))"
  using assms
  by (cases "up_email p")
     (auto simp: us_update_def truthy_str_def Let_def find_None_iff_all)

text \<open>
  Changing the letter case of the own e-mail is refused, whatever \<open>toLowerCase\<close> is, as
  long as it maps the new and the stored e-mail to the same string.
\<close>

lemma us_update_own_case_variant:
  assumes "find (\<lambda>u. uid u = i) (users s) = Some usr"
    and "e \<noteq> []" and "e \<noteq> email usr" and "toLowerCase e = toLowerCase (email usr)"
    and "up_email p = Some e"
  shows "us_update toLowerCase s i p now = (Inl DuplicateKey, s)"
proof -
  have "usr \<in> set (users s)"
    using assms(1) by (auto dest: find_Some_in)
  then have "find (\<lambda>u. toLowerCase (email u) = toLowerCase e) (users s) \<noteq> None"
    using assms(4) by (auto simp: find_None_iff_all)
  then show ?thesis
    using assms by (simp add: us_update_def truthy_str_def)
qed

text \<open>
  Claim C7. The claim says that an update to a new e-mail fails with \<open>DuplicateKey\<close>
  only when another user holds that e-mail up to letter case, so that a user may change
  the letter case of the own e-mail. In the store that holds the single user \<open>u1\<close> with
  e-mail \<open>Test@Example.com\<close>, updating \<open>u1\<close> to \<open>test@example.com\<close> fails with
  \<open>DuplicateKey\<close>: the scan for a holder of the new e-mail does not leave out the user
  that is being updated. (Both strings are ASCII text with the lowercase form
  \<open>test@example.com\<close>; lemma \<open>us_update_own_case_variant\<close> gives the same outcome for
  every store, user and function in place of \<open>toLowerCase\<close>.)
\<close>

theorem own_case_variant_rejected:
  "users demo_userStore = [demo_user]
   \<and> uid demo_user = ''u1''
   \<and> email demo_user = ''Test@Example.com''
   \<and> up_email lower_email_patch = Some ''test@example.com''
   \<and> lower_ascii ''test@example.com'' = lower_ascii ''Test@Example.com''
   \<and> us_update lower_ascii demo_userStore ''u1'' lower_email_patch 5000
       = (Inl DuplicateKey, demo_userStore)"
  by (simp add: demo_userStore_users demo_user_fields us_update_def lower_email_patch_def
      truthy_str_def lower_demo lower_lower_demo)

section \<open>Snapshot and reload\<close>

lemma event_revive_toJSON: "event_revive (event_toJSON e) = e"
  by (simp add: event_revive_def event_toJSON_def)

text \<open>Events come back from their snapshot as they were, dates included.\<close>

lemma event_snapshot_reload: "events (new_EventStore (eventsFile (es_saveToFile s))) = events s"
  by (simp add: new_EventStore_def es_loadFromFile_def es_saveToFile_def comp_def
      event_revive_toJSON)

text \<open>Users come back without their password hash and with strings for dates.\<close>

lemma user_snapshot_reload:
  "users (new_UserStore (usersFile (us_saveToFile s)))
     = map (\<lambda>u. u\<lparr>password := None,
                   userCreatedAt := DateString (iso_text (userCreatedAt u)),
                   userUpdatedAt := DateString (iso_text (userUpdatedAt u))\<rparr>) (users s)"
  by (simp add: new_UserStore_def us_loadFromFile_def us_saveToFile_def comp_def
      user_revive_def user_toJSON_def)

text \<open>
  Claim C8. The claim says that a collection saved and loaded again is the same
  collection, every date re-parsed to a date value, \<open>User.createdAt\<close> and
  \<open>User.updatedAt\<close> included. For the user store that holds one freshly created user, the
  store built from the saved snapshot holds a user whose two dates are the ISO strings,
  not \<open>Date\<close> objects, and whose password hash is gone.
\<close>

theorem user_snapshot_reload_loses_dates_and_password:
  "users demo_userStore = [demo_user]
   \<and> password demo_user = Some ''$2a$12$abcdefgh''
   \<and> userCreatedAt demo_user = DateObject 1000
   \<and> userUpdatedAt demo_user = DateObject 1001
   \<and> users (new_UserStore (usersFile (us_saveToFile demo_userStore)))
        = [demo_user\<lparr>password := None, userCreatedAt := DateString 1000,
                      userUpdatedAt := DateString 1001\<rparr>]"
  by (simp add: user_snapshot_reload demo_userStore_users demo_user_fields)

section \<open>Tokens of dead accounts\<close>

text \<open>
  Claim C9. A request whose token verifies (\<open>jwt.verify\<close> returns a payload with a
  \<open>userId\<close>) but whose user is not in the store, or is stored with \<open>isActive = false\<close>, is
  answered exactly as a request whose token makes \<open>jwt.verify\<close> throw a
  \<open>JsonWebTokenError\<close> (malformed token, invalid signature): status 401 with the body
  \<open>{error: 'Access denied', message: 'Invalid token'}\<close>.
\<close>

theorem dead_account_rejected_like_invalid_token:
  assumes "header_token hdr = Some tok" and "tok \<noteq> []"
    and "jwt_verify tok = Decoded (Some i)"
    and "us_findById store i = None \<or> (\<exists>u. us_findById store i = Some u \<and> \<not> isActive u)"
    and "header_token hdr' = Some tok'" and "tok' \<noteq> []"
    and "jwt_verify tok' = Throws ''JsonWebTokenError''"
  shows "authenticateToken jwt_verify store hdr = authenticateToken jwt_verify store hdr'
       \<and> authenticateToken jwt_verify store hdr
           = Respond 401 \<lparr>error_text = ''Access denied'', message_text = ''Invalid token''\<rparr>"
proof -
  have dead: "authenticateToken jwt_verify store hdr
           = Respond 401 \<lparr>error_text = ''Access denied'', message_text = ''Invalid token''\<rparr>"
    using assms(1-4)
    by (auto simp: authenticateToken_def truthy_str_def UNAUTHORIZED_def ACCESS_DENIED_def
        INVALID_TOKEN_def)
  have bad: "authenticateToken jwt_verify store hdr'
           = Respond 401 \<lparr>error_text = ''Access denied'', message_text = ''Invalid token''\<rparr>"
    using assms(5-7)
    by (simp add: authenticateToken_def truthy_str_def UNAUTHORIZED_def ACCESS_DENIED_def
        INVALID_TOKEN_def)
  show ?thesis
    using dead bad by simp
qed

theorem dead_account_rejected_like_invalid_token_witness:
  "authenticateToken demo_verify demo_userStore (Some ''Bearer good.u2'')
     = authenticateToken demo_verify demo_userStore (Some ''Bearer garbage'')
   \<and> authenticateToken demo_verify demo_userStore (Some ''Bearer good.u2'')
     = Respond 401 \<lparr>error_text = ''Access denied'', message_text = ''Invalid token''\<rparr>"
proof -
  have h1: "header_token (Some ''Bearer good.u2'') = Some ''good.u2''"
    by (simp add: header_token_def)
  have h2: "demo_verify ''good.u2'' = Decoded (Some ''u2'')"
    by (simp add: demo_verify_def)
  have h3: "us_findById demo_userStore ''u2'' = None
            \<or> (\<exists>u. us_findById demo_userStore ''u2'' = Some u \<and> \<not> isActive u)"
    by (simp add: us_findById_def demo_userStore_users demo_user_fields)
  have h4: "header_token (Some ''Bearer garbage'') = Some ''garbage''"
    by (simp add: header_token_def)
  have h5: "demo_verify ''garbage'' = Throws ''JsonWebTokenError''"
    by (simp add: demo_verify_def)
  show ?thesis
    using dead_account_rejected_like_invalid_token [OF h1 _ h2 h3 h4 _ h5] by auto
qed

section \<open>A bound of zero\<close>

lemma add_all_unlimited:
  "maxParticipants E = Some 0 \<Longrightarrow> distinct (map fst regs) \<Longrightarrow>
   set (map fst regs) \<inter> set (participants E) = {} \<Longrightarrow>
     \<exists>E'. add_all E regs = Inr E' \<and> participants E' = participants E @ map fst regs
        \<and> maxParticipants E' = Some 0"
proof (induction regs arbitrary: E)
  case Nil
  then show ?case by simp
next
  case (Cons r regs)
  obtain u now where r: "r = (u, now)" by (cases r)
  let ?E = "E\<lparr>participants := participants E @ [u], updatedAt := now\<rparr>"
  have step: "addParticipant E u now = Inr ?E"
    using Cons.prems r by (simp add: addParticipant_def truthy_num_def)
  have "\<exists>E'. add_all ?E regs = Inr E' \<and> participants E' = participants ?E @ map fst regs
          \<and> maxParticipants E' = Some 0"
    using Cons.prems r by (intro Cons.IH) auto
  then show ?case
    using step r by auto
qed

lemma registerParticipant_unlimited:
  assumes "find (\<lambda>e. eid e = i) (events s) = Some E" and "maxParticipants E = Some 0"
    and "u \<notin> set (participants E)"
  shows "registerParticipant s i u now =
           (Inr (E\<lparr>participants := participants E @ [u], updatedAt := now\<rparr>),
            es_saveToFile
              (s\<lparr>events := mutate_first (\<lambda>e. eid e = i)
                              (E\<lparr>participants := participants E @ [u], updatedAt := now\<rparr>)
                              (events s)\<rparr>))"
  using assms by (simp add: registerParticipant_def addParticipant_def truthy_num_def)

lemma register_all_unlimited:
  assumes "find (\<lambda>e. eid e = i) (events s) = Some E" and "maxParticipants E = Some 0"
    and "distinct (map fst regs)" and "set (map fst regs) \<inter> set (participants E) = {}"
  shows "\<exists>s' E'. register_all s i regs = Inr s'
           \<and> find (\<lambda>e. eid e = i) (events s') = Some E'
           \<and> participants E' = participants E @ map fst regs
           \<and> maxParticipants E' = Some 0
           \<and> map eid (events s') = map eid (events s)"
  using assms
proof (induction regs arbitrary: s E)
  case Nil
  then show ?case by simp
next
  case (Cons r regs)
  obtain u now where r: "r = (u, now)" by (cases r)
  let ?E = "E\<lparr>participants := participants E @ [u], updatedAt := now\<rparr>"
  let ?s = "es_saveToFile (s\<lparr>events := mutate_first (\<lambda>e. eid e = i) ?E (events s)\<rparr>)"
  have key: "eid E = i"
    using Cons.prems(1) by (auto dest: find_Some_in)
  have fresh: "u \<notin> set (participants E)"
    using Cons.prems(4) r by auto
  have step: "registerParticipant s i u now = (Inr ?E, ?s)"
    using registerParticipant_unlimited [OF Cons.prems(1,2) fresh] .
  have ev: "events ?s = mutate_first (\<lambda>e. eid e = i) ?E (events s)"
    by (simp add: es_saveToFile_def)
  have found: "find (\<lambda>e. eid e = i) (events ?s) = Some ?E"
    unfolding ev using Cons.prems(1) key by (intro find_mutate_first) auto
  have keys: "map eid (events ?s) = map eid (events s)"
    unfolding ev using key by (intro mutate_first_keys) simp
  have "\<exists>s' E'. register_all ?s i regs = Inr s'
           \<and> find (\<lambda>e. eid e = i) (events s') = Some E'
           \<and> participants E' = participants ?E @ map fst regs
           \<and> maxParticipants E' = Some 0
           \<and> map eid (events s') = map eid (events ?s)"
    using found Cons.prems r by (intro Cons.IH) auto
  then show ?case
    using step r keys by auto
qed

text \<open>
  Claim C10. An event whose \<open>maxParticipants\<close> is the number \<open>0\<close> is unlimited.
  \<open>addParticipant\<close> never fails with \<open>EventFull\<close>, and any run of \<open>addParticipant\<close>
  calls for distinct users that are not yet participants succeeds and appends them in
  order. \<open>getAvailableSpots\<close> returns \<open>null\<close>. At the store, for a stored event (stored
  identifiers being unique): \<open>registerParticipant\<close> never fails with \<open>EventFull\<close>; for a
  user that is not yet a participant it returns the event with the user appended and
  saves the store that holds this event in place of the old one; and any run of
  \<open>registerParticipant\<close> calls for distinct new users succeeds, after which the store
  returns, for the same identifier, an event whose participants are the old ones
  followed by the new ones in order, the other events keeping their places.
\<close>

theorem zero_capacity_is_unlimited:
  assumes "maxParticipants E = Some 0"
  shows "addParticipant E u now \<noteq> Inl EventFull
       \<and> getAvailableSpots E = None
       \<and> (distinct (map fst regs) \<and> set (map fst regs) \<inter> set (participants E) = {} \<longrightarrow>
            (\<exists>E'. add_all E regs = Inr E'
                \<and> participants E' = participants E @ map fst regs))
       \<and> (E \<in> set (events s) \<and> distinct (map eid (events s)) \<longrightarrow>
            fst (registerParticipant s (eid E) u now) \<noteq> Inl EventFull
          \<and> (u \<notin> set (participants E) \<longrightarrow>
                registerParticipant s (eid E) u now =
                  (Inr (E\<lparr>participants := participants E @ [u], updatedAt := now\<rparr>),
                   es_saveToFile
                     (s\<lparr>events := mutate_first (\<lambda>e. eid e = eid E)
                          (E\<lparr>participants := participants E @ [u], updatedAt := now\<rparr>)
                          (events s)\<rparr>))
              \<and> es_findById (snd (registerParticipant s (eid E) u now)) (eid E)
                  = Some (E\<lparr>participants := participants E @ [u], updatedAt := now\<rparr>))
          \<and> (distinct (map fst regs) \<and> set (map fst regs) \<inter> set (participants E) = {} \<longrightarrow>
                (\<exists>s' E'. register_all s (eid E) regs = Inr s'
                    \<and> es_findById s' (eid E) = Some E'
                    \<and> participants E' = participants E @ map fst regs
                    \<and> map eid (events s') = map eid (events s))))"
proof -
  have a: "addParticipant E u now \<noteq> Inl EventFull"
    using assms by (simp add: addParticipant_def truthy_num_def)
  have b: "getAvailableSpots E = None"
    using assms by (simp add: getAvailableSpots_def truthy_num_def)
  have c: "\<exists>E'. add_all E regs = Inr E' \<and> participants E' = participants E @ map fst regs"
    if "distinct (map fst regs)" "set (map fst regs) \<inter> set (participants E) = {}"
    using add_all_unlimited [OF assms that] by blast
  have d: "fst (registerParticipant s (eid E) u now) \<noteq> Inl EventFull
          \<and> (u \<notin> set (participants E) \<longrightarrow>
                registerParticipant s (eid E) u now =
                  (Inr (E\<lparr>participants := participants E @ [u], updatedAt := now\<rparr>),
                   es_saveToFile
                     (s\<lparr>events := mutate_first (\<lambda>e. eid e = eid E)
                          (E\<lparr>participants := participants E @ [u], updatedAt := now\<rparr>)
                          (events s)\<rparr>))
              \<and> es_findById (snd (registerParticipant s (eid E) u now)) (eid E)
                  = Some (E\<lparr>participants := participants E @ [u], updatedAt := now\<rparr>))
          \<and> (distinct (map fst regs) \<and> set (map fst regs) \<inter> set (participants E) = {} \<longrightarrow>
                (\<exists>s' E'. register_all s (eid E) regs = Inr s'
                    \<and> es_findById s' (eid E) = Some E'
                    \<and> participants E' = participants E @ map fst regs
                    \<and> map eid (events s') = map eid (events s)))"
    if stored: "E \<in> set (events s)" "distinct (map eid (events s))"
  proof -
    let ?E = "E\<lparr>participants := participants E @ [u], updatedAt := now\<rparr>"
    have found: "find (\<lambda>e. eid e = eid E) (events s) = Some E"
      using stored by (simp add: find_distinct_key)
    have d1: "fst (registerParticipant s (eid E) u now) \<noteq> Inl EventFull"
      using found a by (cases "addParticipant E u now") (auto simp: registerParticipant_def)
    have d2: "registerParticipant s (eid E) u now =
                (Inr ?E, es_saveToFile
                   (s\<lparr>events := mutate_first (\<lambda>e. eid e = eid E) ?E (events s)\<rparr>))"
      if "u \<notin> set (participants E)"
      using registerParticipant_unlimited [OF found assms that] .
    have d3: "es_findById (snd (registerParticipant s (eid E) u now)) (eid E) = Some ?E"
      if "u \<notin> set (participants E)"
    proof -
      have "find (\<lambda>e. eid e = eid E) (mutate_first (\<lambda>e. eid e = eid E) ?E (events s)) = Some ?E"
        using found by (intro find_mutate_first) auto
      then show ?thesis
        using d2 [OF that] by (simp add: es_findById_def es_saveToFile_def)
    qed
    have d4: "\<exists>s' E'. register_all s (eid E) regs = Inr s'
                    \<and> es_findById s' (eid E) = Some E'
                    \<and> participants E' = participants E @ map fst regs
                    \<and> map eid (events s') = map eid (events s)"
      if "distinct (map fst regs)" "set (map fst regs) \<inter> set (participants E) = {}"
      using register_all_unlimited [OF found assms that]
      unfolding es_findById_def by blast
    show ?thesis
      using d1 d2 d3 d4 by blast
  qed
  show ?thesis
    using a b c d by blast
qed

theorem zero_capacity_is_unlimited_witness:
  "addParticipant zero_event ''c'' 3000 \<noteq> Inl EventFull
   \<and> getAvailableSpots zero_event = None
   \<and> (\<exists>E'. add_all zero_event [(''c'', 3000), (''d'', 3001), (''e'', 3002)] = Inr E'
         \<and> participants E' = [''a'', ''b'', ''c'', ''d'', ''e''])
   \<and> fst (registerParticipant zero_eventStore ''e1'' ''c'' 3000)
       = Inr (zero_event\<lparr>participants := [''a'', ''b'', ''c''], updatedAt := 3000\<rparr>)
   \<and> es_findById (snd (registerParticipant zero_eventStore ''e1'' ''c'' 3000)) ''e1''
       = Some (zero_event\<lparr>participants := [''a'', ''b'', ''c''], updatedAt := 3000\<rparr>)
   \<and> (\<exists>s' E'. register_all zero_eventStore ''e1'' [(''c'', 3000), (''d'', 3001), (''e'', 3002)]
                  = Inr s'
         \<and> es_findById s' ''e1'' = Some E'
         \<and> participants E' = [''a'', ''b'', ''c'', ''d'', ''e''])"
proof -
  have z: "maxParticipants zero_event = Some 0"
    by (simp add: zero_event_def)
  have p: "participants zero_event = [''a'', ''b'']"
    by (simp add: zero_event_def demo_event_def)
  have key: "eid zero_event = ''e1''"
    by (simp add: zero_event_def demo_event_def)
  have fresh: "distinct (map fst [(''c'', 3000::int), (''d'', 3001), (''e'', 3002)])
       \<and> set (map fst [(''c'', 3000::int), (''d'', 3001), (''e'', 3002)])
           \<inter> set (participants zero_event) = {}"
    unfolding p by simp
  have new: "''c'' \<notin> set (participants zero_event)"
    unfolding p by simp
  show ?thesis
    using zero_capacity_is_unlimited
            [OF z, of "''c''" 3000 "[(''c'', 3000), (''d'', 3001), (''e'', 3002)]"
               zero_eventStore]
          fresh new zero_event_stored
    unfolding p key by auto
qed

end
